theory Spec2Isabelle
  imports Main "HOL-Library.Word"
begin

section \<open>Machine types\<close>

text \<open>
  The library is C for a 32-bit STM32 target: \<open>uint8_t\<close>, \<open>uint16_t\<close> and
  \<open>uint32_t\<close> are words of that width (arithmetic wraps), \<open>int\<close> and
  \<open>unsigned\<close> are 32 bits wide, so a \<open>uint16_t\<close> expression that is computed in
  \<open>int\<close> and stored back into a \<open>uint16_t\<close> is the 16-bit word operation.
\<close>

type_synonym u8 = "8 word"
type_synonym u16 = "16 word"
type_synonym u32 = "32 word"

section \<open>touch\_ui.c: the touch signal normalizer\<close>

datatype touch_ui_event_type_t =
    touch_ui_event_none
  | touch_ui_event_pressed
  | touch_ui_event_released
  | touch_ui_event_moved
  | touch_ui_event_held
  | touch_ui_event_double_tap

record touch_ui_event_t =
  event_type :: touch_ui_event_type_t
  x_position :: u16
  y_position :: u16
  timestamp_value :: u32

record touch_ui_state_t =
  last_press_state :: bool
  last_x_position :: u16
  last_y_position :: u16
  last_press_timestamp_value :: u32

text \<open>
  \<open>touch_ui_context_t\<close> holds the tracking state and a pointer to the board driver. The
  driver is not used by \<open>touch_ui_process_input\<close>; the context is its tracking state. The
  C function takes a pointer to the context, which may be null: the argument is an
  \<open>option\<close>, and the function returns the event together with the context as it is left
  behind.
\<close>

type_synonym touch_ui_context_t = touch_ui_state_t

text \<open>The tracking state that \<open>touch_ui_init\<close> writes into the context.\<close>

definition touch_ui_init :: "touch_ui_context_t" where
  "touch_ui_init =
     \<lparr>last_press_state = False, last_x_position = 0, last_y_position = 0,
      last_press_timestamp_value = 0\<rparr>"

definition touch_ui_process_input ::
  "touch_ui_context_t option \<Rightarrow> u16 \<Rightarrow> u16 \<Rightarrow> bool \<Rightarrow> u32 \<Rightarrow>
     touch_ui_event_t \<times> touch_ui_context_t option" where
  "touch_ui_process_input context xp yp is_pressed ts =
     (let event_result =
            \<lparr>event_type = touch_ui_event_none, x_position = xp, y_position = yp,
             timestamp_value = ts\<rparr>
      in case context of
           None \<Rightarrow> (event_result, None)
         | Some c \<Rightarrow>
             (let was_pressed = last_press_state c;
                  press_changed = (was_pressed \<noteq> is_pressed);
                  (ev, c1) =
                    (if \<not> was_pressed \<and> is_pressed then
                       (event_result\<lparr>event_type := touch_ui_event_pressed\<rparr>,
                        c\<lparr>last_x_position := xp, last_y_position := yp,
                          last_press_timestamp_value := ts\<rparr>)
                     else if was_pressed \<and> \<not> is_pressed then
                       (event_result\<lparr>event_type := touch_ui_event_released\<rparr>, c)
                     else if is_pressed \<and> \<not> press_changed then
                       (if xp \<noteq> last_x_position c \<or> yp \<noteq> last_y_position c
                        then (event_result\<lparr>event_type := touch_ui_event_moved\<rparr>, c)
                        else (event_result, c))
                     else (event_result, c));
                  c2 = c1\<lparr>last_press_state := is_pressed\<rparr>;
                  c3 = (if is_pressed
                        then c2\<lparr>last_x_position := xp, last_y_position := yp\<rparr>
                        else c2)
              in (ev, Some c3)))"

section \<open>lcd\_ui.h: widgets, context and the embedding of memory\<close>

datatype lcd_ui_widget_type_t =
    LCD_UI_WIDGET_BUTTON
  | LCD_UI_WIDGET_SLIDER
  | LCD_UI_WIDGET_PROGRESS_BAR
  | LCD_UI_WIDGET_LABEL

text \<open>
  \<open>lcd_ui_align_t\<close> is a C enum with the enumerators 0, 1, 2 and an unsigned underlying
  type. The caller fills the field in, so it can hold a value that is no enumerator, and
  \<open>lcd_ui_add_widget\<close> tests for that: the field is the unsigned value.
\<close>

type_synonym lcd_ui_align_t = nat

definition LCD_UI_ALIGN_LEFT :: lcd_ui_align_t where "LCD_UI_ALIGN_LEFT = 0"
definition LCD_UI_ALIGN_CENTER :: lcd_ui_align_t where "LCD_UI_ALIGN_CENTER = 1"
definition LCD_UI_ALIGN_RIGHT :: lcd_ui_align_t where "LCD_UI_ALIGN_RIGHT = 2"

text \<open>
  Widgets live in storage of the caller and the library holds pointers to them: \<open>addr\<close>
  is the address of a widget, a pointer is an \<open>addr option\<close> (\<open>None\<close> is the null
  pointer). Function pointers are identified by a number. The fields \<open>x\<close> and \<open>y\<close>
  of the C struct are \<open>wx\<close> and \<open>wy\<close>, and \<open>type\<close> is \<open>wtype\<close>.
\<close>

type_synonym addr = nat
type_synonym callback = nat

record lcd_ui_widget =
  wx :: u16
  wy :: u16
  width :: u16
  height :: u16
  wtype :: lcd_ui_widget_type_t
  on_touch :: "callback option"
  user_data :: "addr option"
  label_text :: "string option"
  progress_percent :: u8
  slider_value :: u32
  background_color :: u32
  text_color :: u32
  text_align :: lcd_ui_align_t
  slider_update_callback :: "callback option"

text \<open>
  Of the display driver the model keeps what \<open>get_screen_size\<close> reports. Calls that leave
  the library (the driver's \<open>init\<close>, the drawing of a widget through the driver, the
  callbacks of the application) are recorded in a log, oldest first, with their arguments.
  The callees are code of the application: the model takes them not to write to the
  context or to the widgets.
\<close>

record lcd_ui_driver_t =
  get_screen_size :: "u16 \<times> u16"

datatype call =
    Driver_init
  | Draw_widget addr
  | Touch_callback callback addr u16 u16 "addr option"
  | Slider_update_callback callback addr u32

text \<open>
  The context with the memory it points into: \<open>widgets\<close> is the caller's buffer of
  widget pointers (its length is the number of slots that were really allocated),
  \<open>widget_mem\<close> is the storage of the widgets (an address that holds no widget is
  \<open>None\<close>), \<open>calls\<close> is the log. The other fields are those of
  \<open>struct lcd_ui_context\<close>.
\<close>

record lcd_ui_context =
  driver :: "lcd_ui_driver_t option"
  widgets :: "addr option list"
  widget_capacity :: u8
  widget_count :: u8
  screen_width :: u16
  screen_height :: u16
  active_widget :: "addr option"
  touch_active :: u8
  widget_mem :: "addr \<Rightarrow> lcd_ui_widget option"
  calls :: "call list"

text \<open>
  What is undefined behaviour in C is a fault of the model: a null pointer dereferenced,
  an address that holds no widget, an access past the end of the buffer, a division by
  zero. The C functions take a pointer to the context and return at once when it is null;
  the model's functions take the context itself.
\<close>

datatype fault = Null_Dereference | Invalid_Pointer | Out_Of_Bounds | Division_By_Zero

section \<open>lcd\_ui.c: the registry\<close>

definition lcd_ui_init ::
  "lcd_ui_context \<Rightarrow> lcd_ui_driver_t option \<Rightarrow> addr option list option \<Rightarrow> u8 \<Rightarrow>
     lcd_ui_context" where
  "lcd_ui_init ctx drv widget_buffer capacity =
     (case drv of
        None \<Rightarrow> ctx
      | Some d \<Rightarrow>
          (case widget_buffer of
             None \<Rightarrow> ctx
           | Some buf \<Rightarrow>
               ctx\<lparr>driver := Some d, widgets := buf, widget_capacity := capacity,
                   widget_count := 0, active_widget := None, touch_active := 0,
                   calls := calls ctx @ [Driver_init],
                   screen_width := fst (get_screen_size d),
                   screen_height := snd (get_screen_size d)\<rparr>))"

definition lcd_ui_add_widget :: "lcd_ui_context \<Rightarrow> addr option \<Rightarrow> fault + lcd_ui_context" where
  "lcd_ui_add_widget ctx widget =
     (case widget of
        None \<Rightarrow> Inr ctx
      | Some p \<Rightarrow>
          if widget_count ctx \<ge> widget_capacity ctx then Inr ctx
          else if length (widgets ctx) \<le> unat (widget_count ctx) then Inl Out_Of_Bounds
          else
            (let ctx1 = ctx\<lparr>widgets := (widgets ctx)[unat (widget_count ctx) := Some p],
                            widget_count := widget_count ctx + 1\<rparr>
             in case widget_mem ctx1 p of
                  None \<Rightarrow> Inl Invalid_Pointer
                | Some w \<Rightarrow>
                    if text_align w > LCD_UI_ALIGN_RIGHT then
                      (if length (widgets ctx1) \<le> unat (widget_count ctx1)
                       then Inl Out_Of_Bounds
                       else case widgets ctx1 ! unat (widget_count ctx1) of
                              None \<Rightarrow> Inl Null_Dereference
                            | Some q \<Rightarrow>
                                (case widget_mem ctx1 q of
                                   None \<Rightarrow> Inl Invalid_Pointer
                                 | Some wq \<Rightarrow>
                                     Inr (ctx1\<lparr>widget_mem := (widget_mem ctx1)
                                            (q \<mapsto> wq\<lparr>text_align := LCD_UI_ALIGN_LEFT\<rparr>)\<rparr>)))
                    else Inr ctx1))"

text \<open>A sequence of \<open>lcd_ui_add_widget\<close> calls; the first fault ends it.\<close>

fun add_widgets :: "lcd_ui_context \<Rightarrow> addr option list \<Rightarrow> fault + lcd_ui_context" where
  "add_widgets ctx [] = Inr ctx"
| "add_widgets ctx (p # ps) =
     (case lcd_ui_add_widget ctx p of Inl e \<Rightarrow> Inl e | Inr ctx1 \<Rightarrow> add_widgets ctx1 ps)"

section \<open>lcd\_ui.c: redraw and the default slider handler\<close>

text \<open>
  \<open>draw_widget\<close> returns at once without a driver or without a widget. Otherwise it
  reads the widget and draws it through the driver, by its type: a button, a progress bar
  and a slider always make driver calls, a label only when it has a text. The driver
  calls change neither the context nor the widgets; that the widget was drawn is one
  entry of the log. \<open>lcd_ui_redraw_widget\<close> is \<open>draw_widget\<close>.
\<close>

definition draw_widget :: "lcd_ui_context \<Rightarrow> addr option \<Rightarrow> fault + lcd_ui_context" where
  "draw_widget ctx widget =
     (case driver ctx of
        None \<Rightarrow> Inr ctx
      | Some d \<Rightarrow>
          (case widget of
             None \<Rightarrow> Inr ctx
           | Some p \<Rightarrow>
               (case widget_mem ctx p of
                  None \<Rightarrow> Inl Invalid_Pointer
                | Some w \<Rightarrow>
                    (case wtype w of
                       LCD_UI_WIDGET_LABEL \<Rightarrow>
                         (case label_text w of
                            None \<Rightarrow> Inr ctx
                          | Some t \<Rightarrow> Inr (ctx\<lparr>calls := calls ctx @ [Draw_widget p]\<rparr>))
                     | _ \<Rightarrow> Inr (ctx\<lparr>calls := calls ctx @ [Draw_widget p]\<rparr>)))))"

definition lcd_ui_redraw_widget :: "lcd_ui_context \<Rightarrow> addr option \<Rightarrow> fault + lcd_ui_context" where
  "lcd_ui_redraw_widget ctx widget = draw_widget ctx widget"

text \<open>The local constants of \<open>default_slider_touch_handler\<close>, lines 239 to 249.\<close>

definition knob_half :: "lcd_ui_widget \<Rightarrow> u16" where
  "knob_half w = height w div 2"

definition min_x :: "lcd_ui_widget \<Rightarrow> u16" where
  "min_x w = wx w + knob_half w"

definition max_x :: "lcd_ui_widget \<Rightarrow> u16" where
  "max_x w = wx w + width w - knob_half w"

definition range_x :: "lcd_ui_widget \<Rightarrow> u16" where
  "range_x w = max_x w - min_x w"

definition clamped_x :: "lcd_ui_widget \<Rightarrow> u16 \<Rightarrow> u16" where
  "clamped_x w x = (if x < min_x w then min_x w else if x > max_x w then max_x w else x)"

definition relative_x :: "lcd_ui_widget \<Rightarrow> u16 \<Rightarrow> u16" where
  "relative_x w x = clamped_x w x - min_x w"

definition default_slider_touch_handler ::
  "lcd_ui_context \<Rightarrow> addr option \<Rightarrow> u16 \<Rightarrow> u16 \<Rightarrow> addr option \<Rightarrow> fault + lcd_ui_context" where
  "default_slider_touch_handler ctx widget x y ud =
     (case widget of
        None \<Rightarrow> Inr ctx
      | Some p \<Rightarrow>
          (case widget_mem ctx p of
             None \<Rightarrow> Inl Invalid_Pointer
           | Some w \<Rightarrow>
               if range_x w = 0 then Inl Division_By_Zero
               else
                 (let new_slider_value = (ucast (relative_x w x) * 100) div ucast (range_x w);
                      ctx1 = ctx\<lparr>widget_mem := (widget_mem ctx)
                                (p \<mapsto> w\<lparr>slider_value := new_slider_value\<rparr>)\<rparr>;
                      ctx2 = (case slider_update_callback w of
                                None \<Rightarrow> ctx1
                              | Some cb \<Rightarrow>
                                  ctx1\<lparr>calls := calls ctx1 @
                                    [Slider_update_callback cb p new_slider_value]\<rparr>)
                  in case ud of
                       None \<Rightarrow> lcd_ui_redraw_widget ctx2 (Some p)
                     | Some lp \<Rightarrow>
                         (case widget_mem ctx2 lp of
                            None \<Rightarrow> Inl Invalid_Pointer
                          | Some lw \<Rightarrow>
                              (let ctx3 = ctx2\<lparr>widget_mem := (widget_mem ctx2)
                                     (lp \<mapsto> lw\<lparr>progress_percent :=
                                              ucast (100 - new_slider_value)\<rparr>)\<rparr>
                               in case lcd_ui_redraw_widget ctx3 (Some lp) of
                                    Inl e \<Rightarrow> Inl e
                                  | Inr ctx4 \<Rightarrow> lcd_ui_redraw_widget ctx4 (Some p))))))"

section \<open>lcd\_ui.c: hit test and dispatch\<close>

text \<open>
  The body of the hit-test loop, lines 291 to 314: the margin by widget type, the
  corners of the expanded box as 16-bit values, and the test of the touch point.
\<close>

definition hit_margin :: "lcd_ui_widget \<Rightarrow> u16" where
  "hit_margin w =
     (case wtype w of
        LCD_UI_WIDGET_BUTTON \<Rightarrow> 6
      | LCD_UI_WIDGET_SLIDER \<Rightarrow> height w div 5
      | _ \<Rightarrow> 2)"

definition touch_hits :: "lcd_ui_widget \<Rightarrow> u16 \<Rightarrow> u16 \<Rightarrow> bool" where
  "touch_hits w x y =
     (let margin = hit_margin w;
          x0 = (if wx w > margin then wx w - margin else 0);
          y0 = (if wy w > margin then wy w - margin else 0);
          x1 = wx w + width w + margin;
          y1 = wy w + height w + margin
      in x \<ge> x0 \<and> x < x1 \<and> y \<ge> y0 \<and> y < y1)"

text \<open>
  The loop of lines 287 to 319, from index \<open>i\<close> on: the first widget hit becomes the
  active widget and ends the loop.
\<close>

function hit_test :: "lcd_ui_context \<Rightarrow> u16 \<Rightarrow> u16 \<Rightarrow> u8 \<Rightarrow> fault + lcd_ui_context" where
  "hit_test ctx x y i =
     (if i < widget_count ctx then
        (if length (widgets ctx) \<le> unat i then Inl Out_Of_Bounds
         else case widgets ctx ! unat i of
                None \<Rightarrow> Inl Null_Dereference
              | Some p \<Rightarrow>
                  (case widget_mem ctx p of
                     None \<Rightarrow> Inl Invalid_Pointer
                   | Some w \<Rightarrow>
                       if touch_hits w x y then Inr (ctx\<lparr>active_widget := Some p\<rparr>)
                       else hit_test ctx x y (i + 1)))
      else Inr ctx)"
  by pat_completeness auto
termination
  by (relation "measure (\<lambda>(ctx, x, y, i). unat (widget_count ctx) - unat i)")
     (simp, simp, unat_arith)

definition lcd_ui_handle_touch ::
  "lcd_ui_context \<Rightarrow> u16 \<Rightarrow> u16 \<Rightarrow> u8 \<Rightarrow> fault + lcd_ui_context" where
  "lcd_ui_handle_touch ctx x y is_pressed =
     (if is_pressed \<noteq> 0 then
        (case (if touch_active ctx = 0
               then hit_test (ctx\<lparr>touch_active := 1, active_widget := None\<rparr>) x y 0
               else Inr ctx) of
           Inl e \<Rightarrow> Inl e
         | Inr ctx1 \<Rightarrow>
             (case active_widget ctx1 of
                None \<Rightarrow> Inr ctx1
              | Some p \<Rightarrow>
                  (case widget_mem ctx1 p of
                     None \<Rightarrow> Inl Invalid_Pointer
                   | Some w \<Rightarrow>
                       if wtype w = LCD_UI_WIDGET_SLIDER then
                         (case on_touch w of
                            Some cb \<Rightarrow>
                              Inr (ctx1\<lparr>calls := calls ctx1 @
                                     [Touch_callback cb p x y (user_data w)]\<rparr>)
                          | None \<Rightarrow>
                              default_slider_touch_handler ctx1 (Some p) x y (user_data w))
                       else Inr ctx1)))
      else
        (case active_widget ctx of
           None \<Rightarrow> Inr (ctx\<lparr>touch_active := 0, active_widget := None\<rparr>)
         | Some p \<Rightarrow>
             (case widget_mem ctx p of
                None \<Rightarrow> Inl Invalid_Pointer
              | Some w \<Rightarrow>
                  (let ctx1 = (if wtype w = LCD_UI_WIDGET_BUTTON
                               then (case on_touch w of
                                       None \<Rightarrow> ctx
                                     | Some cb \<Rightarrow>
                                         ctx\<lparr>calls := calls ctx @
                                           [Touch_callback cb p x y (user_data w)]\<rparr>)
                               else ctx)
                   in Inr (ctx1\<lparr>touch_active := 0, active_widget := None\<rparr>)))))"

text \<open>
  A sequence of \<open>lcd_ui_handle_touch\<close> calls, one tick \<open>(x, y, is_pressed)\<close> each; the
  first fault ends it.
\<close>

fun handle_touches ::
  "lcd_ui_context \<Rightarrow> (u16 \<times> u16 \<times> u8) list \<Rightarrow> fault + lcd_ui_context" where
  "handle_touches ctx [] = Inr ctx"
| "handle_touches ctx ((x, y, is_pressed) # ticks) =
     (case lcd_ui_handle_touch ctx x y is_pressed of
        Inl e \<Rightarrow> Inl e
      | Inr ctx1 \<Rightarrow> handle_touches ctx1 ticks)"

section \<open>The hit test in the words of the specification\<close>








section \<open>The slider mapping in the words of the specification\<close>

text \<open>
  The usable bounds \<open>x + height/2\<close> and \<open>x + width - height/2\<close>, the touch x clamped
  to them, and the value \<open>(clamped_x - min_x) * 100 / range_x\<close> with a truncating
  division, on natural numbers without any wrap-around.
\<close>

definition spec_min_x :: "lcd_ui_widget \<Rightarrow> nat" where
  "spec_min_x w = unat (wx w) + unat (height w) div 2"

definition spec_max_x :: "lcd_ui_widget \<Rightarrow> nat" where
  "spec_max_x w = unat (wx w) + unat (width w) - unat (height w) div 2"

definition spec_clamped_x :: "lcd_ui_widget \<Rightarrow> nat \<Rightarrow> nat" where
  "spec_clamped_x w t =
     (if t < spec_min_x w then spec_min_x w else if spec_max_x w < t then spec_max_x w else t)"

definition spec_slider_value :: "lcd_ui_widget \<Rightarrow> nat \<Rightarrow> nat" where
  "spec_slider_value w t =
     (spec_clamped_x w t - spec_min_x w) * 100 div (spec_max_x w - spec_min_x w)"

text \<open>The usable bounds are in order, with a positive range, and fit 16 bits.\<close>

definition usable_range_fits :: "lcd_ui_widget \<Rightarrow> bool" where
  "usable_range_fits w = (spec_min_x w < spec_max_x w \<and> spec_max_x w < 65536)"

section \<open>Well-formed inputs and readings of results\<close>


text \<open>A non-null pointer to a widget whose alignment is one of the three enumerators.\<close>

definition align_in_range :: "lcd_ui_context \<Rightarrow> addr option \<Rightarrow> bool" where
  "align_in_range ctx p = (case p of None \<Rightarrow> False | Some a \<Rightarrow>
      (case widget_mem ctx a of None \<Rightarrow> False | Some w \<Rightarrow> text_align w \<le> LCD_UI_ALIGN_RIGHT))"

text \<open>
  The user-data pointer that the default handler takes for a linked progress bar is null
  or points to a widget.
\<close>

definition link_ok :: "lcd_ui_context \<Rightarrow> addr option \<Rightarrow> bool" where
  "link_ok ctx ud = (case ud of None \<Rightarrow> True | Some lp \<Rightarrow> widget_mem ctx lp \<noteq> None)"

text \<open>The slider value that a call of the handler leaves in the widget at \<open>p\<close>.\<close>

definition stored_slider_value :: "fault + lcd_ui_context \<Rightarrow> addr \<Rightarrow> fault + u32 option" where
  "stored_slider_value r p = map_sum id (\<lambda>c. map_option slider_value (widget_mem c p)) r"

section \<open>Fixtures of the scenarios\<close>

definition blank_widget :: lcd_ui_widget where
  "blank_widget =
     \<lparr>wx = 0, wy = 0, width = 0, height = 0, wtype = LCD_UI_WIDGET_LABEL,
      on_touch = None, user_data = None, label_text = None, progress_percent = 0,
      slider_value = 0, background_color = 0, text_color = 0,
      text_align = LCD_UI_ALIGN_LEFT, slider_update_callback = None\<rparr>"

definition blank_context :: lcd_ui_context where
  "blank_context =
     \<lparr>driver = None, widgets = [], widget_capacity = 0, widget_count = 0,
      screen_width = 0, screen_height = 0, active_widget = None, touch_active = 0,
      widget_mem = (\<lambda>a. None), calls = []\<rparr>"

definition board_driver :: lcd_ui_driver_t where
  "board_driver = \<lparr>get_screen_size = (480, 272)\<rparr>"

text \<open>Six label widgets at the addresses 1 to 6, for the capacity scenario.\<close>

definition six_labels :: lcd_ui_context where
  "six_labels =
     blank_context\<lparr>widget_mem := (\<lambda>a. if 1 \<le> a \<and> a \<le> 6 then Some blank_widget else None)\<rparr>"

text \<open>
  A context initialised again over a buffer that still holds the pointers of an earlier
  use (\<open>lcd_ui_init\<close> does not clear the slots), and a widget at address 30 whose
  alignment is no enumerator.
\<close>

definition reused_buffer :: lcd_ui_context where
  "reused_buffer =
     lcd_ui_init
       (blank_context\<lparr>widget_mem :=
          [10 \<mapsto> blank_widget,
           20 \<mapsto> blank_widget\<lparr>text_align := LCD_UI_ALIGN_CENTER\<rparr>,
           30 \<mapsto> blank_widget\<lparr>text_align := 7\<rparr>]\<rparr>)
       (Some board_driver) (Some [Some 10, Some 20]) 2"

text \<open>
  A screen with two overlapping buttons, a slider linked to a progress bar, and the
  progress bar, registered in this order in a registry of capacity 5.
\<close>

definition button_a :: lcd_ui_widget where
  "button_a = blank_widget\<lparr>wx := 50, wy := 50, width := 80, height := 40,
     wtype := LCD_UI_WIDGET_BUTTON, on_touch := Some 1\<rparr>"

definition button_b :: lcd_ui_widget where
  "button_b = blank_widget\<lparr>wx := 100, wy := 60, width := 80, height := 40,
     wtype := LCD_UI_WIDGET_BUTTON, on_touch := Some 2\<rparr>"

definition slider_s :: lcd_ui_widget where
  "slider_s = blank_widget\<lparr>wx := 0, wy := 200, width := 100, height := 20,
     wtype := LCD_UI_WIDGET_SLIDER, user_data := Some 4\<rparr>"

definition bar_p :: lcd_ui_widget where
  "bar_p = blank_widget\<lparr>wx := 0, wy := 230, width := 100, height := 10,
     wtype := LCD_UI_WIDGET_PROGRESS_BAR\<rparr>"

definition demo_mem :: "addr \<Rightarrow> lcd_ui_widget option" where
  "demo_mem = [1 \<mapsto> button_a, 2 \<mapsto> button_b, 3 \<mapsto> slider_s, 4 \<mapsto> bar_p]"

definition demo_ui :: lcd_ui_context where
  "demo_ui =
     \<lparr>driver = Some board_driver, widgets = [Some 1, Some 2, Some 3, Some 4, None],
      widget_capacity = 5, widget_count = 4, screen_width = 480, screen_height = 272,
      active_widget = None, touch_active = 0, widget_mem = demo_mem,
      calls = [Driver_init]\<rparr>"

text \<open>
  A slider that starts at x = 65000 and is 1000 wide: its right usable bound does not fit
  16 bits.
\<close>

definition wrap_slider :: lcd_ui_widget where
  "wrap_slider = blank_widget\<lparr>wx := 65000, wy := 0, width := 1000, height := 20,
     wtype := LCD_UI_WIDGET_SLIDER\<rparr>"

definition wrap_ui :: lcd_ui_context where
  "wrap_ui =
     \<lparr>driver = Some board_driver, widgets = [Some 1], widget_capacity = 1,
      widget_count = 1, screen_width = 480, screen_height = 272,
      active_widget = Some 1, touch_active = 1, widget_mem = [1 \<mapsto> wrap_slider],
      calls = [Driver_init]\<rparr>"




section \<open>Properties of the normalizer\<close>

text \<open>
  Claim C8. The transition rules of \<open>touch_ui_process_input\<close> on a non-null context, in
  priority order: up then down gives a pressed event and latches x, y and the timestamp;
  down then up gives a released event; still down with a changed position gives a moved
  event; still down with the same position gives none (as does up then up); the held and
  double-tap events are never produced; and in every case the stored press flag becomes
  the new flag and, while pressed, the stored position becomes the new position (when not
  pressed the stored position and, unless a press starts, the stored timestamp stay).
\<close>

theorem touch_ui_process_input_rules:
  "\<exists>ev c'. touch_ui_process_input (Some c) xp yp pr ts = (ev, Some c') \<and>
     (\<not> last_press_state c \<and> pr \<longrightarrow>
        event_type ev = touch_ui_event_pressed \<and> last_x_position c' = xp \<and>
        last_y_position c' = yp \<and> last_press_timestamp_value c' = ts) \<and>
     (last_press_state c \<and> \<not> pr \<longrightarrow> event_type ev = touch_ui_event_released) \<and>
     (last_press_state c \<and> pr \<and> (xp \<noteq> last_x_position c \<or> yp \<noteq> last_y_position c) \<longrightarrow>
        event_type ev = touch_ui_event_moved) \<and>
     (last_press_state c \<and> pr \<and> xp = last_x_position c \<and> yp = last_y_position c \<longrightarrow>
        event_type ev = touch_ui_event_none) \<and>
     (\<not> last_press_state c \<and> \<not> pr \<longrightarrow> event_type ev = touch_ui_event_none) \<and>
     event_type ev \<noteq> touch_ui_event_held \<and>
     event_type ev \<noteq> touch_ui_event_double_tap \<and>
     last_press_state c' = pr \<and>
     (pr \<longrightarrow> last_x_position c' = xp \<and> last_y_position c' = yp) \<and>
     (\<not> pr \<longrightarrow> last_x_position c' = last_x_position c \<and>
                last_y_position c' = last_y_position c) \<and>
     (\<not> (\<not> last_press_state c \<and> pr) \<longrightarrow>
        last_press_timestamp_value c' = last_press_timestamp_value c)"
  by (simp add: touch_ui_process_input_def Let_def)

theorem touch_ui_process_input_rules_witness:
  "\<exists>ev c'. touch_ui_process_input (Some touch_ui_init) 5 7 True 1000 = (ev, Some c') \<and>
     \<not> last_press_state touch_ui_init \<and>
     event_type ev = touch_ui_event_pressed \<and> last_x_position c' = 5 \<and>
     last_y_position c' = 7 \<and> last_press_timestamp_value c' = 1000 \<and>
     last_press_state c' = True"
  using touch_ui_process_input_rules [of touch_ui_init 5 7 True 1000]
  by (auto simp: touch_ui_init_def)

text \<open>
  Claim C10. The event returned by \<open>touch_ui_process_input\<close> always carries the x, y and
  timestamp of the current sample, also when the context is null and also for a released
  event: after a press at one position, a release sampled at another position reports the
  position of the release sample, not the stored one.
\<close>

theorem touch_ui_process_input_event_sample:
  "x_position (fst (touch_ui_process_input context xp yp pr ts)) = xp \<and>
   y_position (fst (touch_ui_process_input context xp yp pr ts)) = yp \<and>
   timestamp_value (fst (touch_ui_process_input context xp yp pr ts)) = ts \<and>
   fst (touch_ui_process_input
          (snd (touch_ui_process_input (Some touch_ui_init) 5 7 True 1000)) 0 0 False 1001)
     = \<lparr>event_type = touch_ui_event_released, x_position = 0, y_position = 0,
        timestamp_value = 1001\<rparr>"
  by (cases "context")
     (simp_all add: touch_ui_process_input_def touch_ui_init_def Let_def split: prod.splits)

theorem touch_ui_process_input_event_sample_witness:
  "x_position (fst (touch_ui_process_input
      (Some \<lparr>last_press_state = True, last_x_position = 5, last_y_position = 7,
             last_press_timestamp_value = 1000\<rparr>) 9 11 False 1001)) = 9 \<and>
   y_position (fst (touch_ui_process_input
      (Some \<lparr>last_press_state = True, last_x_position = 5, last_y_position = 7,
             last_press_timestamp_value = 1000\<rparr>) 9 11 False 1001)) = 11 \<and>
   timestamp_value (fst (touch_ui_process_input
      (Some \<lparr>last_press_state = True, last_x_position = 5, last_y_position = 7,
             last_press_timestamp_value = 1000\<rparr>) 9 11 False 1001)) = 1001 \<and>
   event_type (fst (touch_ui_process_input
      (Some \<lparr>last_press_state = True, last_x_position = 5, last_y_position = 7,
             last_press_timestamp_value = 1000\<rparr>) 9 11 False 1001)) = touch_ui_event_released"
  using touch_ui_process_input_event_sample
    [of "Some \<lparr>last_press_state = True, last_x_position = 5, last_y_position = 7,
               last_press_timestamp_value = 1000\<rparr>" 9 11 False 1001]
  by (simp add: touch_ui_process_input_def Let_def)

section \<open>Properties of the registry\<close>

lemma lcd_ui_add_widget_full:
  "widget_capacity ctx \<le> widget_count ctx \<Longrightarrow> lcd_ui_add_widget ctx widget = Inr ctx"
  by (simp add: lcd_ui_add_widget_def split: option.splits)

lemma lcd_ui_add_widget_step:
  assumes "align_in_range ctx p" "unat (widget_capacity ctx) \<le> length (widgets ctx)"
   "widget_count ctx < widget_capacity ctx"
  shows "lcd_ui_add_widget ctx p = Inr (ctx\<lparr>widgets := (widgets ctx)[unat (widget_count ctx) := p],
                            widget_count := widget_count ctx + 1\<rparr>)"
proof -
  have "unat (widget_count ctx) < length (widgets ctx)"
    using assms(2,3) by (simp add: word_less_nat_alt)
  then show ?thesis using assms
    by (auto simp add: lcd_ui_add_widget_def align_in_range_def Let_def split: option.splits)
qed

lemma add_widgets_ok:
  assumes "list_all (align_in_range ctx) ps" "unat (widget_capacity ctx) \<le> length (widgets ctx)"
   "widget_count ctx \<le> widget_capacity ctx"
  shows "\<exists>ctx'. add_widgets ctx ps = Inr ctx' \<and>
     unat (widget_count ctx') = min (unat (widget_capacity ctx)) (unat (widget_count ctx) + length ps) \<and>
     widget_capacity ctx' = widget_capacity ctx"
  using assms
proof (induction ps arbitrary: ctx)
  case Nil
  then show ?case by (simp add: word_le_nat_alt)
next
  case (Cons p ps)
  show ?case
  proof (cases "widget_count ctx < widget_capacity ctx")
    case True
    let ?c1 = "ctx\<lparr>widgets := (widgets ctx)[unat (widget_count ctx) := p],
                            widget_count := widget_count ctx + 1\<rparr>"
    have s: "lcd_ui_add_widget ctx p = Inr ?c1" using lcd_ui_add_widget_step Cons.prems True by simp
    have u: "unat (widget_count ctx + 1) = Suc (unat (widget_count ctx))" using True by unat_arith
    have "align_in_range ?c1 = align_in_range ctx"
      by (rule ext) (simp add: align_in_range_def split: option.splits)
    then have al: "list_all (align_in_range ?c1) ps" using Cons.prems(1) by simp
    have le: "widget_count ?c1 \<le> widget_capacity ?c1" using True by (simp add: inc_le)
    have ln: "unat (widget_capacity ?c1) \<le> length (widgets ?c1)" using Cons.prems by simp 
    from Cons.IH[OF al ln le] obtain ctx' where
      a: "add_widgets ?c1 ps = Inr ctx'" and
      b: "unat (widget_count ctx') = min (unat (widget_capacity ?c1)) (unat (widget_count ?c1) + length ps)" and
      d: "widget_capacity ctx' = widget_capacity ?c1" by blast
    show ?thesis using a b d u 
      by (simp add: s)
  next
    case False
    then have eq: "widget_count ctx = widget_capacity ctx" using Cons.prems(3) by simp
    have s: "lcd_ui_add_widget ctx p = Inr ctx" using lcd_ui_add_widget_full eq by simp
    have al: "list_all (align_in_range ctx) ps" using Cons.prems(1) by simp
    from Cons.IH[OF al Cons.prems(2) Cons.prems(3)] show ?thesis using eq 
      by (auto simp: s)
  qed
qed

lemma add_widgets_append:
  "add_widgets ctx (ps @ qs) =
     (case add_widgets ctx ps of Inl e \<Rightarrow> Inl e | Inr ctx1 \<Rightarrow> add_widgets ctx1 qs)"
  by (induction ps arbitrary: ctx) (auto split: sum.splits)

text \<open>
  Claim C6. \<open>lcd_ui_add_widget\<close> on a registry whose count has reached the capacity
  returns the context as it was: the count, every slot, the widgets and the log are
  unchanged. In particular, after \<open>lcd_ui_init\<close> with capacity 5 over a buffer of 5
  slots, adding six widgets (with alignments in range) leaves the count at 5, and the
  context after the sixth call is the context after the fifth.
\<close>

theorem lcd_ui_add_widget_at_capacity:
  "(widget_capacity ctx \<le> widget_count ctx \<longrightarrow> lcd_ui_add_widget ctx widget = Inr ctx) \<and>
   (length buf = 5 \<and> length ps = 5 \<and> list_all (align_in_range ctx0) (ps @ [p6]) \<longrightarrow>
      (\<exists>ctx'. add_widgets (lcd_ui_init ctx0 (Some d) (Some buf) 5) ps = Inr ctx' \<and>
         widget_count ctx' = 5 \<and>
         add_widgets (lcd_ui_init ctx0 (Some d) (Some buf) 5) (ps @ [p6]) = Inr ctx'))"
proof (intro conjI impI)
  show "lcd_ui_add_widget ctx widget = Inr ctx" if "widget_capacity ctx \<le> widget_count ctx"
    using that by (rule lcd_ui_add_widget_full)
next
  assume h: "length buf = 5 \<and> length ps = 5 \<and> list_all (align_in_range ctx0) (ps @ [p6])"
  let ?c0 = "lcd_ui_init ctx0 (Some d) (Some buf) 5"
  have "align_in_range ?c0 = align_in_range ctx0"
    by (rule ext) (simp add: lcd_ui_init_def align_in_range_def split: option.splits)
  then have al: "list_all (align_in_range ?c0) ps" using h by simp
  have ln: "unat (widget_capacity ?c0) \<le> length (widgets ?c0)" using h
    by (simp add: lcd_ui_init_def)
  have le: "widget_count ?c0 \<le> widget_capacity ?c0" by (simp add: lcd_ui_init_def)
  from add_widgets_ok[OF al ln le] obtain ctx' where
    a: "add_widgets ?c0 ps = Inr ctx'" and
    b: "unat (widget_count ctx') = min (unat (widget_capacity ?c0)) (unat (widget_count ?c0) + length ps)" and
    c: "widget_capacity ctx' = widget_capacity ?c0" by blast
  have cnt: "unat (widget_count ctx') = 5" using b h by (simp add: lcd_ui_init_def)
  then have cnt5: "widget_count ctx' = 5"
    by unat_arith
  have cap5: "widget_capacity ctx' = 5" using c by (simp add: lcd_ui_init_def)
  have "lcd_ui_add_widget ctx' p6 = Inr ctx'" using lcd_ui_add_widget_full cnt5 cap5 by simp
  then have "add_widgets ?c0 (ps @ [p6]) = Inr ctx'" using a by (simp add: add_widgets_append)
  then show "\<exists>ctx'. add_widgets ?c0 ps = Inr ctx' \<and> widget_count ctx' = 5 \<and>
         add_widgets ?c0 (ps @ [p6]) = Inr ctx'" using a cnt5 by blast
qed

theorem lcd_ui_add_widget_at_capacity_witness:
  "widget_capacity (six_labels\<lparr>widget_capacity := 5, widget_count := 5\<rparr>)
     \<le> widget_count (six_labels\<lparr>widget_capacity := 5, widget_count := 5\<rparr>) \<and>
   lcd_ui_add_widget (six_labels\<lparr>widget_capacity := 5, widget_count := 5\<rparr>) (Some 6)
     = Inr (six_labels\<lparr>widget_capacity := 5, widget_count := 5\<rparr>) \<and>
   length (replicate 5 (None :: addr option)) = 5 \<and>
   list_all (align_in_range six_labels) [Some 1, Some 2, Some 3, Some 4, Some 5, Some 6] \<and>
   (\<exists>ctx'. add_widgets
             (lcd_ui_init six_labels (Some board_driver) (Some (replicate 5 None)) 5)
             [Some 1, Some 2, Some 3, Some 4, Some 5] = Inr ctx' \<and>
           widget_count ctx' = 5 \<and>
           add_widgets
             (lcd_ui_init six_labels (Some board_driver) (Some (replicate 5 None)) 5)
             [Some 1, Some 2, Some 3, Some 4, Some 5, Some 6] = Inr ctx')"
proof -
  have a: "list_all (align_in_range six_labels) ([Some 1, Some 2, Some 3, Some 4, Some 5] @ [Some 6])"
    by (simp add: align_in_range_def six_labels_def blank_widget_def LCD_UI_ALIGN_LEFT_def
                  LCD_UI_ALIGN_RIGHT_def)
  show ?thesis
    using a lcd_ui_add_widget_at_capacity [where ctx = "six_labels\<lparr>widget_capacity := 5, widget_count := 5\<rparr>"
                 and widget = "Some 6" and buf = "replicate 5 None"
                 and ps = "[Some 1, Some 2, Some 3, Some 4, Some 5]" and ?p6.0 = "Some 6"
                 and d = board_driver and ?ctx0.0 = six_labels]
    by (simp del: add_widgets.simps)
qed

text \<open>
  Claim C7 fails on the code. \<open>lcd_ui_add_widget\<close> tests the alignment of the widget
  it inserts but repairs the widget of the slot after it: the inserted widget at address
  30 keeps its alignment 7, and the widget at address 20, which a stale slot points to,
  loses its own. Over a zeroed buffer the repair dereferences a null pointer, and when
  the insertion fills the registry it reads past the end of the buffer.
\<close>

theorem lcd_ui_add_widget_repairs_next_slot:
  "(\<exists>ctx'. lcd_ui_add_widget reused_buffer (Some 30) = Inr ctx' \<and>
      widgets ctx' = [Some 30, Some 20] \<and> widget_count ctx' = 1 \<and>
      map_option text_align (widget_mem ctx' 30) = Some 7 \<and>
      map_option text_align (widget_mem reused_buffer 20) = Some LCD_UI_ALIGN_CENTER \<and>
      map_option text_align (widget_mem ctx' 20) = Some LCD_UI_ALIGN_LEFT) \<and>
   lcd_ui_add_widget (reused_buffer\<lparr>widgets := [None, None]\<rparr>) (Some 30)
     = Inl Null_Dereference \<and>
   lcd_ui_add_widget (reused_buffer\<lparr>widgets := [Some 10, None], widget_count := 1\<rparr>) (Some 30)
     = Inl Out_Of_Bounds"
  by (simp add: lcd_ui_add_widget_def reused_buffer_def lcd_ui_init_def blank_context_def
        blank_widget_def board_driver_def LCD_UI_ALIGN_LEFT_def LCD_UI_ALIGN_CENTER_def
        LCD_UI_ALIGN_RIGHT_def Let_def word_le_nat_alt)

section \<open>Evaluating the fixtures\<close>

lemmas fixture_defs = button_a_def button_b_def slider_s_def bar_p_def demo_mem_def demo_ui_def
  blank_widget_def blank_context_def board_driver_def LCD_UI_ALIGN_LEFT_def LCD_UI_ALIGN_RIGHT_def

lemma demo_built: "add_widgets (lcd_ui_init (blank_context\<lparr>widget_mem := demo_mem\<rparr>)
    (Some board_driver) (Some [None, None, None, None, None]) 5) [Some 1, Some 2, Some 3, Some 4] = Inr demo_ui"
  by (simp add: fixture_defs lcd_ui_init_def lcd_ui_add_widget_def Let_def word_le_nat_alt)

section \<open>Properties of the touch session\<close>

lemma hit_test_session:
  "hit_test ctx x y i = Inr ctx' \<Longrightarrow> ctx' = ctx\<lparr>active_widget := active_widget ctx'\<rparr>"
proof (induction ctx x y i rule: hit_test.induct)
  case (1 ctx x y i)
  show ?case
  proof (cases "i < widget_count ctx")
    case False
    with "1.prems" show ?thesis by (simp add: hit_test.simps[of ctx x y i])
  next
    case True
    with "1.prems" "1.IH" show ?thesis
      by (subst (asm) hit_test.simps) (auto split: if_splits option.splits)
  qed
qed

lemma lcd_ui_redraw_widget_frame:
  "lcd_ui_redraw_widget ctx q = Inr ctx' \<Longrightarrow> ctx' = ctx\<lparr>calls := calls ctx'\<rparr>"
  by (auto simp: lcd_ui_redraw_widget_def draw_widget_def
           split: option.splits lcd_ui_widget_type_t.splits)

lemma lcd_ui_redraw_widget_returns:
  assumes "widget_mem ctx p = Some w"
  shows "\<exists>cs. lcd_ui_redraw_widget ctx (Some p) = Inr (ctx\<lparr>calls := cs\<rparr>)"
proof (cases "lcd_ui_redraw_widget ctx (Some p)")
  case (Inl e)
  with assms show ?thesis
    by (auto simp: lcd_ui_redraw_widget_def draw_widget_def
             split: option.splits lcd_ui_widget_type_t.splits)
next
  case (Inr ctx')
  from lcd_ui_redraw_widget_frame[OF Inr] Inr show ?thesis by metis
qed

lemma default_slider_touch_handler_session:
  "default_slider_touch_handler ctx widget x y ud = Inr ctx' \<Longrightarrow>
     active_widget ctx' = active_widget ctx \<and> touch_active ctx' = touch_active ctx"
proof -
  assume r: "default_slider_touch_handler ctx widget x y ud = Inr ctx'"
  have f: "\<And>c q c'. lcd_ui_redraw_widget c q = Inr c' \<Longrightarrow>
            active_widget c' = active_widget c \<and> touch_active c' = touch_active c"
  proof -
    fix c q c' assume "lcd_ui_redraw_widget c q = Inr c'"
    from lcd_ui_redraw_widget_frame[OF this]
    have "active_widget c' = active_widget (c\<lparr>calls := calls c'\<rparr>)"
         "touch_active c' = touch_active (c\<lparr>calls := calls c'\<rparr>)" by simp_all
    then show "active_widget c' = active_widget c \<and> touch_active c' = touch_active c" by simp
  qed
  from r show ?thesis
    by (auto simp: default_slider_touch_handler_def Let_def
             split: option.splits if_splits sum.splits dest!: f)
qed

lemma lcd_ui_add_widget_session:
  "lcd_ui_add_widget ctx p = Inr ctx' \<Longrightarrow>
     active_widget ctx' = active_widget ctx \<and> touch_active ctx' = touch_active ctx"
  by (auto simp: lcd_ui_add_widget_def Let_def split: option.splits if_splits)

lemma add_widgets_session:
  "add_widgets ctx ps = Inr ctx' \<Longrightarrow>
     active_widget ctx' = active_widget ctx \<and> touch_active ctx' = touch_active ctx"
proof (induction ps arbitrary: ctx)
  case Nil then show ?case by simp
next
  case (Cons p ps)
  then show ?case by (auto split: sum.splits dest: lcd_ui_add_widget_session)
qed

lemma lcd_ui_handle_touch_pressed_latched:
  assumes "touch_active ctx \<noteq> 0" "is_pressed \<noteq> 0"
    "lcd_ui_handle_touch ctx x y is_pressed = Inr ctx'"
  shows "active_widget ctx' = active_widget ctx \<and> touch_active ctx' = touch_active ctx"
  using assms
  by (auto simp: lcd_ui_handle_touch_def split: option.splits if_splits
           dest: default_slider_touch_handler_session)

lemma lcd_ui_handle_touch_session:
  assumes "active_widget ctx \<noteq> None \<longrightarrow> touch_active ctx \<noteq> 0"
    "lcd_ui_handle_touch ctx x y is_pressed = Inr ctx'"
  shows "active_widget ctx' \<noteq> None \<longrightarrow> touch_active ctx' \<noteq> 0"
proof (cases "is_pressed = 0")
  case True
  with assms(2) show ?thesis
    by (auto simp: lcd_ui_handle_touch_def Let_def split: option.splits)
next
  case pressed: False
  show ?thesis
  proof (cases "touch_active ctx = 0")
    case False
    with pressed assms(2) lcd_ui_handle_touch_pressed_latched show ?thesis by metis
  next
    case True
    let ?c0 = "ctx\<lparr>touch_active := 1, active_widget := None\<rparr>"
    from pressed True assms(2) obtain ctx1 where
      h: "hit_test ?c0 x y 0 = Inr ctx1"
      by (auto simp: lcd_ui_handle_touch_def split: sum.splits)
    then have t1: "touch_active ctx1 = 1"
      using hit_test_session[OF h] by (metis lcd_ui_context.select_convs(8) lcd_ui_context.surjective lcd_ui_context.update_convs(7,8))
    have "lcd_ui_handle_touch ctx1 x y is_pressed = Inr ctx'"
      using pressed True assms(2) h t1 by (simp add: lcd_ui_handle_touch_def)
    then have "touch_active ctx' = 1"
      using lcd_ui_handle_touch_pressed_latched[of ctx1 is_pressed x y ctx'] pressed t1 by simp
    then show ?thesis by simp
  qed
qed

lemma handle_touches_session:
  assumes "active_widget ctx \<noteq> None \<longrightarrow> touch_active ctx \<noteq> 0"
    "handle_touches ctx ticks = Inr ctx'"
  shows "active_widget ctx' \<noteq> None \<longrightarrow> touch_active ctx' \<noteq> 0"
  using assms
proof (induction ticks arbitrary: ctx)
  case Nil then show ?case by simp
next
  case (Cons t ticks)
  obtain x y pr where t: "t = (x, y, pr)" by (cases t)
  from Cons.prems(2) obtain ctx1 where
    a: "lcd_ui_handle_touch ctx x y pr = Inr ctx1" and b: "handle_touches ctx1 ticks = Inr ctx'"
    by (auto simp: t split: sum.splits)
  from lcd_ui_handle_touch_session[OF Cons.prems(1) a] Cons.IH b show ?case by blast
qed

lemma handle_touches_drag:
  assumes "touch_active ctx \<noteq> 0" "list_all (\<lambda>(x, y, is_pressed). is_pressed \<noteq> 0) ticks"
    "handle_touches ctx ticks = Inr ctx'"
  shows "active_widget ctx' = active_widget ctx \<and> touch_active ctx' = touch_active ctx"
  using assms
proof (induction ticks arbitrary: ctx)
  case Nil then show ?case by simp
next
  case (Cons t ticks)
  obtain x y pr where t: "t = (x, y, pr)" by (cases t)
  from Cons.prems(3) obtain ctx1 where
    a: "lcd_ui_handle_touch ctx x y pr = Inr ctx1" and b: "handle_touches ctx1 ticks = Inr ctx'"
    by (auto simp: t split: sum.splits)
  have pr: "pr \<noteq> 0" using Cons.prems(2) t by simp
  from lcd_ui_handle_touch_pressed_latched[OF Cons.prems(1) pr a]
  have c: "active_widget ctx1 = active_widget ctx" "touch_active ctx1 = touch_active ctx" by simp_all
  then have "touch_active ctx1 \<noteq> 0" using Cons.prems(1) by simp
  from Cons.IH[OF this _ b] Cons.prems(2) c show ?case by simp
qed

lemmas slider_defs = min_x_def max_x_def range_x_def knob_half_def clamped_x_def relative_x_def

lemmas eval_defs = fixture_defs lcd_ui_handle_touch_def touch_hits_def hit_margin_def Let_def
  word_le_nat_alt word_less_nat_alt

text \<open>
  Claim C1, as amended. In every context reached from \<open>lcd_ui_init\<close> by adding widgets
  and then dispatching any sequence of presses and releases through
  \<open>lcd_ui_handle_touch\<close>, the active widget is non-null only if \<open>touch_active\<close> is
  set. (The converse fails: see the counterexample below.)
\<close>

theorem touch_session_invariant:
  assumes "add_widgets (lcd_ui_init ctx0 (Some d) (Some buf) capacity) ps = Inr ctx"
    and "handle_touches ctx ticks = Inr ctx'"
  shows "active_widget ctx' \<noteq> None \<longrightarrow> touch_active ctx' \<noteq> 0"
proof -
  have "active_widget ctx = None"
    using add_widgets_session[OF assms(1)] by (simp add: lcd_ui_init_def)
  then show ?thesis using handle_touches_session[OF _ assms(2)] by simp
qed

theorem touch_session_invariant_witness:
  "add_widgets (lcd_ui_init (blank_context\<lparr>widget_mem := demo_mem\<rparr>)
      (Some board_driver) (Some [None, None, None, None, None]) 5)
      [Some 1, Some 2, Some 3, Some 4] = Inr demo_ui \<and>
   handle_touches demo_ui [(300, 10, 1), (50, 50, 1), (50, 50, 0), (50, 50, 1)]
     = Inr (demo_ui\<lparr>touch_active := 1, active_widget := Some 1\<rparr>) \<and>
   active_widget (demo_ui\<lparr>touch_active := 1, active_widget := Some 1\<rparr>) = Some 1 \<and>
   touch_active (demo_ui\<lparr>touch_active := 1, active_widget := Some 1\<rparr>) \<noteq> 0"
proof -
  have a: "add_widgets (lcd_ui_init (blank_context\<lparr>widget_mem := demo_mem\<rparr>)
      (Some board_driver) (Some [None, None, None, None, None]) 5)
      [Some 1, Some 2, Some 3, Some 4] = Inr demo_ui"
    by (rule demo_built)
  have b: "handle_touches demo_ui [(300, 10, 1), (50, 50, 1), (50, 50, 0), (50, 50, 1)]
     = Inr (demo_ui\<lparr>touch_active := 1, active_widget := Some 1\<rparr>)"
    by (simp add: eval_defs)
  from touch_session_invariant[OF a b] a b show ?thesis by (simp del: add_widgets.simps handle_touches.simps)
qed

text \<open>
  The claim C1 as stated, with "if and only if", fails: a press at (300, 10), where no
  widget is, sets \<open>touch_active\<close> and leaves the active widget null.
\<close>

theorem touch_session_iff_counterexample:
  "add_widgets (lcd_ui_init (blank_context\<lparr>widget_mem := demo_mem\<rparr>)
      (Some board_driver) (Some [None, None, None, None, None]) 5)
      [Some 1, Some 2, Some 3, Some 4] = Inr demo_ui \<and>
   lcd_ui_handle_touch demo_ui 300 10 1
     = Inr (demo_ui\<lparr>touch_active := 1, active_widget := None\<rparr>) \<and>
   \<not> (active_widget (demo_ui\<lparr>touch_active := 1, active_widget := None\<rparr>) \<noteq> None
      \<longleftrightarrow> touch_active (demo_ui\<lparr>touch_active := 1, active_widget := None\<rparr>) \<noteq> 0)"
proof (intro conjI)
  show "add_widgets (lcd_ui_init (blank_context\<lparr>widget_mem := demo_mem\<rparr>)
      (Some board_driver) (Some [None, None, None, None, None]) 5)
      [Some 1, Some 2, Some 3, Some 4] = Inr demo_ui"
    by (rule demo_built)
  show "lcd_ui_handle_touch demo_ui 300 10 1
     = Inr (demo_ui\<lparr>touch_active := 1, active_widget := None\<rparr>)"
    by (simp add: eval_defs)
  show "\<not> (active_widget (demo_ui\<lparr>touch_active := 1, active_widget := None\<rparr>) \<noteq> None
      \<longleftrightarrow> touch_active (demo_ui\<lparr>touch_active := 1, active_widget := None\<rparr>) \<noteq> 0)"
    by simp
qed

text \<open>
  Claim C2. Drag-lock: while \<open>touch_active\<close> is set (a press tick has latched the
  active widget), every later call of \<open>lcd_ui_handle_touch\<close> with \<open>is_pressed\<close>
  set leaves the active widget as it is, wherever the touch point moves; only a release
  tick ends this.
\<close>

theorem drag_lock:
  assumes "touch_active ctx \<noteq> 0"
    and "list_all (\<lambda>(x, y, is_pressed). is_pressed \<noteq> 0) ticks"
    and "handle_touches ctx ticks = Inr ctx'"
  shows "active_widget ctx' = active_widget ctx \<and> touch_active ctx' = touch_active ctx"
  using assms by (rule handle_touches_drag)

theorem drag_lock_witness:
  "lcd_ui_handle_touch demo_ui 60 60 1
     = Inr (demo_ui\<lparr>touch_active := 1, active_widget := Some 1\<rparr>) \<and>
   touch_hits button_b 150 90 \<and> \<not> touch_hits button_a 150 90 \<and>
   handle_touches (demo_ui\<lparr>touch_active := 1, active_widget := Some 1\<rparr>)
      [(120, 70, 1), (150, 90, 1), (50, 205, 1), (300, 10, 1)]
     = Inr (demo_ui\<lparr>touch_active := 1, active_widget := Some 1\<rparr>) \<and>
   active_widget (demo_ui\<lparr>touch_active := 1, active_widget := Some 1\<rparr>) = Some 1"
proof -
  let ?l = "demo_ui\<lparr>touch_active := 1, active_widget := Some 1\<rparr>"
  let ?ticks = "[(120, 70, 1), (150, 90, 1), (50, 205, 1), (300, 10, 1)] :: (u16 \<times> u16 \<times> u8) list"
  have a: "touch_active ?l \<noteq> 0" by simp
  have b: "list_all (\<lambda>(x, y, is_pressed). is_pressed \<noteq> 0) ?ticks" by simp
  have c: "handle_touches ?l ?ticks = Inr ?l" by (simp add: eval_defs)
  have d: "lcd_ui_handle_touch demo_ui 60 60 1 = Inr ?l" by (simp add: eval_defs)
  have e: "touch_hits button_b 150 90 \<and> \<not> touch_hits button_a 150 90" by (simp add: eval_defs)
  from drag_lock[OF a b c] c d e show ?thesis by (simp del: handle_touches.simps)
qed

text \<open>
  Claim C9. With a widget latched: a pressed tick on a latched slider forwards
  \<open>(x, y)\<close>, whatever they are, to the custom \<open>on_touch\<close> callback if there is one and
  to the default slider handler otherwise; a pressed tick on a latched widget of another
  type changes nothing and calls nothing; a release tick on a latched button with a touch
  callback calls it once, with the coordinates of the release, and clears the session;
  a release tick on any other latched widget only clears the session.
\<close>

theorem dispatch_to_latched_widget:
  assumes "active_widget ctx = Some p" and "widget_mem ctx p = Some w"
  shows "(touch_active ctx \<noteq> 0 \<and> is_pressed \<noteq> 0 \<and> wtype w = LCD_UI_WIDGET_SLIDER \<longrightarrow>
            lcd_ui_handle_touch ctx x y is_pressed =
              (case on_touch w of
                 Some cb \<Rightarrow> Inr (ctx\<lparr>calls := calls ctx @
                              [Touch_callback cb p x y (user_data w)]\<rparr>)
               | None \<Rightarrow> default_slider_touch_handler ctx (Some p) x y (user_data w))) \<and>
         (touch_active ctx \<noteq> 0 \<and> is_pressed \<noteq> 0 \<and> wtype w \<noteq> LCD_UI_WIDGET_SLIDER \<longrightarrow>
            lcd_ui_handle_touch ctx x y is_pressed = Inr ctx) \<and>
         (is_pressed = 0 \<and> wtype w = LCD_UI_WIDGET_BUTTON \<longrightarrow>
            lcd_ui_handle_touch ctx x y is_pressed =
              Inr ((case on_touch w of
                      Some cb \<Rightarrow> ctx\<lparr>calls := calls ctx @
                                   [Touch_callback cb p x y (user_data w)]\<rparr>
                    | None \<Rightarrow> ctx)\<lparr>touch_active := 0, active_widget := None\<rparr>)) \<and>
         (is_pressed = 0 \<and> wtype w \<noteq> LCD_UI_WIDGET_BUTTON \<longrightarrow>
            lcd_ui_handle_touch ctx x y is_pressed =
              Inr (ctx\<lparr>touch_active := 0, active_widget := None\<rparr>))"
  using assms by (simp add: lcd_ui_handle_touch_def Let_def split: option.splits)

theorem dispatch_to_latched_widget_witness:
  "active_widget (demo_ui\<lparr>touch_active := 1, active_widget := Some 1\<rparr>) = Some 1 \<and>
   widget_mem (demo_ui\<lparr>touch_active := 1, active_widget := Some 1\<rparr>) 1 = Some button_a \<and>
   wtype button_a = LCD_UI_WIDGET_BUTTON \<and>
   lcd_ui_handle_touch demo_ui 50 50 1
     = Inr (demo_ui\<lparr>touch_active := 1, active_widget := Some 1\<rparr>) \<and>
   lcd_ui_handle_touch (demo_ui\<lparr>touch_active := 1, active_widget := Some 1\<rparr>) 50 50 0
     = Inr (demo_ui\<lparr>calls := [Driver_init, Touch_callback 1 1 50 50 None]\<rparr>) \<and>
   handle_touches demo_ui [(50, 50, 1), (50, 50, 0), (50, 50, 0)]
     = Inr (demo_ui\<lparr>calls := [Driver_init, Touch_callback 1 1 50 50 None]\<rparr>) \<and>
   \<not> touch_hits slider_s 300 10 \<and>
   stored_slider_value
     (lcd_ui_handle_touch (demo_ui\<lparr>touch_active := 1, active_widget := Some 3\<rparr>) 300 10 1) 3
     = Inr (Some 100) \<and>
   map_sum id calls
     (lcd_ui_handle_touch (demo_ui\<lparr>touch_active := 1, active_widget := Some 3\<rparr>) 300 10 1)
     = Inr [Driver_init, Draw_widget 4, Draw_widget 3] \<and>
   map_sum id calls
     (lcd_ui_handle_touch (demo_ui\<lparr>touch_active := 1, active_widget := Some 3\<rparr>) 300 10 0)
     = Inr [Driver_init]"
proof -
  let ?l = "demo_ui\<lparr>touch_active := 1, active_widget := Some 1\<rparr>"
  let ?s = "demo_ui\<lparr>touch_active := 1, active_widget := Some 3\<rparr>"
  have sa: "active_widget ?s = Some 3" by simp
  have sb: "widget_mem ?s 3 = Some slider_s" by (simp add: demo_ui_def demo_mem_def)
  have sc: "wtype slider_s = LCD_UI_WIDGET_SLIDER \<and> on_touch slider_s = None \<and>
            user_data slider_s = Some 4 \<and> touch_active ?s \<noteq> 0"
    by (simp add: slider_s_def blank_widget_def)
  have sd: "stored_slider_value (default_slider_touch_handler ?s (Some 3) 300 10 (Some 4)) 3
              = Inr (Some 100) \<and>
            map_sum id calls (default_slider_touch_handler ?s (Some 3) 300 10 (Some 4))
              = Inr [Driver_init, Draw_widget 4, Draw_widget 3] \<and>
            \<not> touch_hits slider_s 300 10"
    by (simp add: slider_defs fixture_defs stored_slider_value_def default_slider_touch_handler_def
          lcd_ui_redraw_widget_def draw_widget_def touch_hits_def hit_margin_def Let_def word_less_nat_alt
          word_le_nat_alt)
  have se: "lcd_ui_handle_touch ?s 300 10 1 = default_slider_touch_handler ?s (Some 3) 300 10 (Some 4)"
    using dispatch_to_latched_widget[OF sa sb, of 1 300 10] sc by simp
  have sf: "lcd_ui_handle_touch ?s 300 10 0 = Inr (?s\<lparr>touch_active := 0, active_widget := None\<rparr>)"
    using dispatch_to_latched_widget[OF sa sb, of 0 300 10] sc by simp
  have sg: "map_sum id calls (lcd_ui_handle_touch ?s 300 10 0) = Inr [Driver_init]"
    unfolding sf by (simp add: demo_ui_def)
  have a: "active_widget ?l = Some 1" by simp
  have b: "widget_mem ?l 1 = Some button_a" by (simp add: demo_ui_def demo_mem_def)
  have c: "wtype button_a = LCD_UI_WIDGET_BUTTON" by (simp add: button_a_def)
  have d: "lcd_ui_handle_touch demo_ui 50 50 1 = Inr ?l" by (simp add: eval_defs)
  have e: "handle_touches demo_ui [(50, 50, 1), (50, 50, 0), (50, 50, 0)]
     = Inr (demo_ui\<lparr>calls := [Driver_init, Touch_callback 1 1 50 50 None]\<rparr>)"
    by (simp add: eval_defs)
  have h: "lcd_ui_handle_touch ?l 50 50 0
     = Inr (demo_ui\<lparr>calls := [Driver_init, Touch_callback 1 1 50 50 None]\<rparr>)"
    using dispatch_to_latched_widget[OF a b, of 0 50 50] c by (simp add: fixture_defs)
  from a b c d e h sd se sg show ?thesis
    by (simp del: handle_touches.simps)
qed

section \<open>Properties of the hit test\<close>












section \<open>Properties of the default slider handler\<close>

lemma default_slider_touch_handler_stores:
  assumes "widget_mem ctx p = Some w" and "range_x w \<noteq> 0" and "link_ok ctx ud"
  shows "\<exists>ctx' w'. default_slider_touch_handler ctx (Some p) x y ud = Inr ctx' \<and>
           widget_mem ctx' p = Some w' \<and>
           slider_value w' = (ucast (relative_x w x) * 100) div ucast (range_x w)"
proof -
  let ?v = "(ucast (relative_x w x) * 100) div ucast (range_x w) :: u32"
  let ?c1 = "ctx\<lparr>widget_mem := (widget_mem ctx)(p \<mapsto> w\<lparr>slider_value := ?v\<rparr>)\<rparr>"
  let ?c2 = "(case slider_update_callback w of
                None \<Rightarrow> ?c1
              | Some cb \<Rightarrow> ?c1\<lparr>calls := calls ?c1 @ [Slider_update_callback cb p ?v]\<rparr>)"
  have m2: "widget_mem ?c2 = (widget_mem ctx)(p \<mapsto> w\<lparr>slider_value := ?v\<rparr>)"
    by (simp split: option.splits)
  show ?thesis
  proof (cases ud)
    case None
    then have h: "default_slider_touch_handler ctx (Some p) x y ud =
                    lcd_ui_redraw_widget ?c2 (Some p)"
      using assms(1,2) by (simp add: default_slider_touch_handler_def Let_def)
    have "widget_mem ?c2 p = Some (w\<lparr>slider_value := ?v\<rparr>)" by (simp add: m2)
    from lcd_ui_redraw_widget_returns[OF this] obtain cs where
      "lcd_ui_redraw_widget ?c2 (Some p) = Inr (?c2\<lparr>calls := cs\<rparr>)" by blast
    with h m2 show ?thesis by simp
  next
    case (Some lp)
    with assms(3) obtain lw0 where "widget_mem ctx lp = Some lw0"
      by (auto simp: link_ok_def)
    then obtain lw where lw: "widget_mem ?c2 lp = Some lw"
      and sv: "lp = p \<longrightarrow> slider_value lw = ?v"
      by (cases "lp = p") (simp_all add: m2)
    let ?c3 = "?c2\<lparr>widget_mem := (widget_mem ?c2)
                 (lp \<mapsto> lw\<lparr>progress_percent := ucast (100 - ?v)\<rparr>)\<rparr>"
    have h: "default_slider_touch_handler ctx (Some p) x y ud =
               (case lcd_ui_redraw_widget ?c3 (Some lp) of
                  Inl e \<Rightarrow> Inl e
                | Inr ctx4 \<Rightarrow> lcd_ui_redraw_widget ctx4 (Some p))"
      using assms(1,2) Some lw by (simp add: default_slider_touch_handler_def Let_def)
    have m3l: "widget_mem ?c3 lp = Some (lw\<lparr>progress_percent := ucast (100 - ?v)\<rparr>)"
      by simp
    obtain w3 where m3: "widget_mem ?c3 p = Some w3" and v3: "slider_value w3 = ?v"
      using sv by (cases "lp = p") (simp_all add: m2)
    from lcd_ui_redraw_widget_returns[OF m3l] obtain cs where
      r3: "lcd_ui_redraw_widget ?c3 (Some lp) = Inr (?c3\<lparr>calls := cs\<rparr>)" by blast
    have "widget_mem (?c3\<lparr>calls := cs\<rparr>) p = Some w3" using m3 by simp
    from lcd_ui_redraw_widget_returns[OF this] obtain cs' where
      r4: "lcd_ui_redraw_widget (?c3\<lparr>calls := cs\<rparr>) (Some p) =
             Inr (?c3\<lparr>calls := cs\<rparr>\<lparr>calls := cs'\<rparr>)" by blast
    have "default_slider_touch_handler ctx (Some p) x y ud =
            Inr (?c3\<lparr>calls := cs\<rparr>\<lparr>calls := cs'\<rparr>)"
      unfolding h r3 using r4 by simp
    moreover have "widget_mem (?c3\<lparr>calls := cs\<rparr>\<lparr>calls := cs'\<rparr>) p = Some w3"
      using m3 by simp
    ultimately show ?thesis using v3 by blast
  qed
qed

lemma unat_ucast_u16_u32: "unat (ucast (r::u16) :: u32) = unat r"
  by (simp add: unsigned_ucast_eq take_bit_nat_eq_self_iff)
     (rule less_trans[OF unsigned_less], simp)

lemma unat_scaled: "unat ((ucast (r::u16) :: u32) * 100) = unat r * 100"
proof -
  have "unat r < 65536" using unsigned_less[of r] by simp
  then have "unat (ucast r :: u32) * unat (100 :: u32) < 2 ^ LENGTH(32)"
    by (simp add: unat_ucast_u16_u32)
  then have "unat ((ucast r :: u32) * 100) = unat (ucast r :: u32) * unat (100 :: u32)"
    by (simp only: unat_mult_lem[THEN iffD1])
  then show ?thesis by (simp add: unat_ucast_u16_u32)
qed

lemma unat_value:
  "unat ((ucast (r::u16) * 100) div ucast (d::u16) :: u32) = unat r * 100 div unat d"
  by (simp add: unat_div unat_scaled unat_ucast_u16_u32)

lemma clamped_x_in_range:
  assumes "min_x w \<le> max_x w"
  shows "min_x w \<le> clamped_x w x \<and> clamped_x w x \<le> max_x w"
  using assms by (auto simp: clamped_x_def)

lemma clamped_x_mono:
  assumes "min_x w \<le> max_x w" "x1 \<le> x2"
  shows "clamped_x w x1 \<le> clamped_x w x2"
  using assms by (auto simp: clamped_x_def)

lemma unat_relative_x:
  assumes "min_x w \<le> max_x w"
  shows "unat (relative_x w x) = unat (clamped_x w x) - unat (min_x w)"
  using clamped_x_in_range[OF assms, of x] by (simp add: relative_x_def unat_sub)

lemma unat_range_x:
  assumes "min_x w \<le> max_x w"
  shows "unat (range_x w) = unat (max_x w) - unat (min_x w)"
  using assms by (simp add: range_x_def unat_sub)

lemma range_x_width: "range_x w = width w - 2 * (height w div 2)"
  by (simp add: range_x_def max_x_def min_x_def knob_half_def)

lemma range_x_positive:
  assumes "height w < width w"
  shows "range_x w \<noteq> 0"
proof -
  have "unat (height w div 2) = unat (height w) div 2" by (simp add: unat_div)
  moreover have "unat (height w) < unat (width w)" using assms by (simp add: word_less_nat_alt)
  moreover have "unat (width w) < 65536" using unsigned_less[of "width w"] by simp
  ultimately have k: "unat (2 * (height w div 2)) = 2 * (unat (height w) div 2)"
    by (simp add: unat_word_ariths)
  then have "2 * (height w div 2) \<le> height w"
    by (simp add: word_le_nat_alt)
  then have "2 * (height w div 2) < width w" using assms by simp
  then show ?thesis by (simp add: range_x_width)
qed

lemma slider_scenario:
  "min_x slider_s = 10 \<and> max_x slider_s = 90 \<and> clamped_x slider_s 50 = 50 \<and>
   relative_x slider_s 50 = 40 \<and> range_x slider_s = 80 \<and>
   stored_slider_value (default_slider_touch_handler demo_ui (Some 3) 50 205 (Some 4)) 3
     = Inr (Some 50)"
  by (simp add: slider_defs fixture_defs stored_slider_value_def default_slider_touch_handler_def
        lcd_ui_redraw_widget_def draw_widget_def Let_def word_less_nat_alt)

lemma usable_range_no_wrap:
  assumes "height w < width w" and "unat (wx w) + unat (width w) < 65536"
  shows "unat (min_x w) = unat (wx w) + unat (height w) div 2 \<and>
         unat (max_x w) = unat (wx w) + unat (width w) - unat (height w) div 2 \<and>
         min_x w \<le> max_x w"
proof -
  have h: "unat (height w) < unat (width w)" using assms(1) by (simp add: word_less_nat_alt)
  have k: "unat (knob_half w) = unat (height w) div 2" by (simp add: knob_half_def unat_div)
  have a: "unat (wx w + width w) = unat (wx w) + unat (width w)"
    using assms(2) by (simp add: unat_add_lem[THEN iffD1])
  have "unat (wx w) + unat (knob_half w) < 2 ^ LENGTH(16)" using assms(2) h k by simp
  then have lo: "unat (min_x w) = unat (wx w) + unat (height w) div 2"
    by (simp add: min_x_def k unat_add_lem[THEN iffD1])
  have "knob_half w \<le> wx w + width w" using a k h by (simp add: word_le_nat_alt)
  then have hi: "unat (max_x w) = unat (wx w) + unat (width w) - unat (height w) div 2"
    by (simp add: max_x_def unat_sub a k)
  from lo hi h have "unat (min_x w) \<le> unat (max_x w)" by simp
  with lo hi show ?thesis by (simp add: word_le_nat_alt)
qed

lemma slider_value_unat:
  assumes "min_x w \<le> max_x w"
  shows "unat ((ucast (relative_x w x) * 100) div ucast (range_x w) :: u32) =
           (unat (clamped_x w x) - unat (min_x w)) * 100 div (unat (max_x w) - unat (min_x w))"
  by (simp add: unat_value unat_relative_x[OF assms] unat_range_x[OF assms])

lemma usable_range_fits_unat:
  assumes "usable_range_fits w"
  shows "unat (min_x w) = spec_min_x w \<and> unat (max_x w) = spec_max_x w \<and> min_x w < max_x w"
proof -
  let ?X = "unat (wx w)" and ?W = "unat (width w)" and ?K = "unat (height w) div 2"
  have k: "unat (knob_half w) = ?K" by (simp add: knob_half_def unat_div)
  from assms have lt: "?X + ?K < ?X + ?W - ?K" and hi: "?X + ?W - ?K < 65536"
    by (simp_all add: usable_range_fits_def spec_min_x_def spec_max_x_def)
  then have kle: "?K \<le> ?X + ?W" by simp
  have "?X + unat (knob_half w) < 2 ^ LENGTH(16)" using lt hi k by simp
  then have lo: "unat (min_x w) = ?X + ?K"
    by (simp add: min_x_def k unat_add_lem[THEN iffD1])
  have "max_x w = of_nat ?X + of_nat ?W - of_nat (unat (knob_half w))"
    by (simp add: max_x_def)
  also have "\<dots> = of_nat (?X + ?W - ?K)" using kle by (simp add: k of_nat_diff)
  finally have "unat (max_x w) = (?X + ?W - ?K) mod 2 ^ LENGTH(16)"
    by (simp only: unat_of_nat)
  then have up: "unat (max_x w) = ?X + ?W - ?K" using hi by simp
  from lo up lt show ?thesis
    by (simp add: spec_min_x_def spec_max_x_def word_less_nat_alt)
qed

lemma spec_clamped_x_unat:
  assumes "usable_range_fits w"
  shows "unat (clamped_x w x) = spec_clamped_x w (unat x)"
  using usable_range_fits_unat[OF assms]
  by (simp add: clamped_x_def spec_clamped_x_def word_less_nat_alt)

lemma wrap_slider_values:
  "widget_mem wrap_ui 1 = Some wrap_slider \<and> height wrap_slider < width wrap_slider \<and>
   min_x wrap_slider = 65010 \<and> max_x wrap_slider = 454 \<and> range_x wrap_slider = 980 \<and>
   spec_min_x wrap_slider = 65010 \<and> spec_max_x wrap_slider = 65990 \<and>
   link_ok wrap_ui None"
  by (simp add: wrap_ui_def wrap_slider_def slider_defs fixture_defs link_ok_def
        spec_min_x_def spec_max_x_def word_less_nat_alt)

text \<open>
  Claim C4, as amended. For a slider with a non-zero \<open>range_x\<close> the default handler
  returns and stores the value \<open>(clamped_x - min_x) * 100 / range_x\<close>, a truncating
  division, where the bounds, the clamped touch x and the differences are the 16-bit
  values of the handler. When the usable bounds \<open>x + height/2\<close> and
  \<open>x + width - height/2\<close> are in order and fit 16 bits, these are the plain numbers:
  the touch x is clamped into the usable range and the stored value is that of the
  specification. For the slider with x = 0, width = 100, height = 20 touched at x = 50 the
  bounds are 10 and 90, \<open>relative_x\<close> is 40 and the stored value is 50.
\<close>

theorem default_slider_value:
  assumes "widget_mem ctx p = Some w" and "range_x w \<noteq> 0" and "link_ok ctx ud"
  shows "\<exists>ctx' w'. default_slider_touch_handler ctx (Some p) x y ud = Inr ctx' \<and>
     widget_mem ctx' p = Some w' \<and>
     min_x w = wx w + height w div 2 \<and>
     max_x w = wx w + width w - height w div 2 \<and>
     clamped_x w x = (if x < min_x w then min_x w else if max_x w < x then max_x w else x) \<and>
     unat (slider_value w') =
       unat (clamped_x w x - min_x w) * 100 div unat (max_x w - min_x w) \<and>
     (usable_range_fits w \<longrightarrow>
        unat (min_x w) = spec_min_x w \<and> unat (max_x w) = spec_max_x w \<and>
        unat (clamped_x w x) = spec_clamped_x w (unat x) \<and>
        spec_min_x w \<le> spec_clamped_x w (unat x) \<and>
        spec_clamped_x w (unat x) \<le> spec_max_x w \<and>
        unat (slider_value w') = spec_slider_value w (unat x)) \<and>
     usable_range_fits slider_s \<and> spec_min_x slider_s = 10 \<and> spec_max_x slider_s = 90 \<and>
     spec_clamped_x slider_s 50 - spec_min_x slider_s = 40 \<and>
     spec_slider_value slider_s 50 = 50 \<and>
     min_x slider_s = 10 \<and> max_x slider_s = 90 \<and> relative_x slider_s 50 = 40 \<and>
     stored_slider_value (default_slider_touch_handler demo_ui (Some 3) 50 205 (Some 4)) 3
       = Inr (Some 50)"
proof -
  from default_slider_touch_handler_stores[OF assms, of x y] obtain ctx' w' where
    r: "default_slider_touch_handler ctx (Some p) x y ud = Inr ctx'"
    and m: "widget_mem ctx' p = Some w'"
    and v: "slider_value w' = (ucast (relative_x w x) * 100) div ucast (range_x w)"
    by blast
  have n: "unat (slider_value w') =
       unat (clamped_x w x - min_x w) * 100 div unat (max_x w - min_x w)"
    by (simp add: v unat_value relative_x_def range_x_def)
  have o: "usable_range_fits w \<longrightarrow>
        unat (min_x w) = spec_min_x w \<and> unat (max_x w) = spec_max_x w \<and>
        unat (clamped_x w x) = spec_clamped_x w (unat x) \<and>
        spec_min_x w \<le> spec_clamped_x w (unat x) \<and>
        spec_clamped_x w (unat x) \<le> spec_max_x w \<and>
        unat (slider_value w') = spec_slider_value w (unat x)"
  proof
    assume fits: "usable_range_fits w"
    from usable_range_fits_unat[OF fits] have
      lo: "unat (min_x w) = spec_min_x w" and hi: "unat (max_x w) = spec_max_x w"
      and le: "min_x w \<le> max_x w" by (simp_all add: less_imp_le)
    have cl: "unat (clamped_x w x) = spec_clamped_x w (unat x)"
      using fits by (rule spec_clamped_x_unat)
    have inr: "spec_min_x w \<le> spec_clamped_x w (unat x) \<and>
               spec_clamped_x w (unat x) \<le> spec_max_x w"
      using clamped_x_in_range[OF le, of x] by (simp add: word_le_nat_alt lo hi cl)
    have "unat (slider_value w') = spec_slider_value w (unat x)"
      by (simp add: v slider_value_unat[OF le] lo hi cl spec_slider_value_def)
    with lo hi cl inr
    show "unat (min_x w) = spec_min_x w \<and> unat (max_x w) = spec_max_x w \<and>
        unat (clamped_x w x) = spec_clamped_x w (unat x) \<and>
        spec_min_x w \<le> spec_clamped_x w (unat x) \<and>
        spec_clamped_x w (unat x) \<le> spec_max_x w \<and>
        unat (slider_value w') = spec_slider_value w (unat x)" by simp
  qed
  have d: "min_x w = wx w + height w div 2 \<and> max_x w = wx w + width w - height w div 2 \<and>
     clamped_x w x = (if x < min_x w then min_x w else if max_x w < x then max_x w else x)"
    by (simp add: min_x_def max_x_def knob_half_def clamped_x_def)
  have sc: "usable_range_fits slider_s \<and> spec_min_x slider_s = 10 \<and> spec_max_x slider_s = 90 \<and>
     spec_clamped_x slider_s 50 - spec_min_x slider_s = 40 \<and>
     spec_slider_value slider_s 50 = 50"
    by (simp add: usable_range_fits_def spec_min_x_def spec_max_x_def spec_clamped_x_def
          spec_slider_value_def slider_s_def blank_widget_def)
  from r m n o d sc slider_scenario show ?thesis by blast
qed

theorem default_slider_value_witness:
  "widget_mem demo_ui 3 = Some slider_s \<and> range_x slider_s = 80 \<and> link_ok demo_ui (Some 4) \<and>
   usable_range_fits slider_s \<and> spec_slider_value slider_s (unat (50::u16)) = 50 \<and>
   (\<exists>ctx' w'. default_slider_touch_handler demo_ui (Some 3) 50 205 (Some 4) = Inr ctx' \<and>
      widget_mem ctx' 3 = Some w' \<and> unat (slider_value w') = 50)"
proof -
  have a: "widget_mem demo_ui 3 = Some slider_s" by (simp add: demo_ui_def demo_mem_def)
  have b: "range_x slider_s \<noteq> 0" using slider_scenario by simp
  have c: "link_ok demo_ui (Some 4)" by (simp add: link_ok_def demo_ui_def demo_mem_def)
  have f: "usable_range_fits slider_s \<and> spec_slider_value slider_s (unat (50::u16)) = 50"
    by (simp add: usable_range_fits_def spec_min_x_def spec_max_x_def spec_clamped_x_def
          spec_slider_value_def slider_s_def blank_widget_def)
  from default_slider_value[OF a b c, of 50 205] obtain ctx' w' where
    "default_slider_touch_handler demo_ui (Some 3) 50 205 (Some 4) = Inr ctx'"
    "widget_mem ctx' 3 = Some w'"
    "usable_range_fits slider_s \<longrightarrow>
        unat (min_x slider_s) = spec_min_x slider_s \<and> unat (max_x slider_s) = spec_max_x slider_s \<and>
        unat (clamped_x slider_s 50) = spec_clamped_x slider_s (unat (50::u16)) \<and>
        spec_min_x slider_s \<le> spec_clamped_x slider_s (unat (50::u16)) \<and>
        spec_clamped_x slider_s (unat (50::u16)) \<le> spec_max_x slider_s \<and>
        unat (slider_value w') = spec_slider_value slider_s (unat (50::u16))"
    by (elim exE conjE) (rule that, assumption+)
  with f have "\<exists>ctx' w'. default_slider_touch_handler demo_ui (Some 3) 50 205 (Some 4) = Inr ctx' \<and>
      widget_mem ctx' 3 = Some w' \<and> unat (slider_value w') = 50"
    by auto
  with a c f slider_scenario show ?thesis by simp
qed

text \<open>
  The claim C4 as stated, with the plain usable range, fails where the right usable bound
  does not fit 16 bits: for the slider at x = 65000 of width 1000 and height 20 the
  usable range is 65010 to 65990, a touch at 65300 lies inside it and the formula of
  the claim gives 290 * 100 / 980 = 29; the code computes \<open>max_x\<close> as 454, clamps the
  touch to it and stores 100.
\<close>

theorem default_slider_value_counterexample:
  "widget_mem wrap_ui 1 = Some wrap_slider \<and> range_x wrap_slider = 980 \<and>
   link_ok wrap_ui None \<and>
   spec_min_x wrap_slider = 65010 \<and> spec_max_x wrap_slider = 65990 \<and>
   spec_clamped_x wrap_slider 65300 = 65300 \<and> spec_slider_value wrap_slider 65300 = 29 \<and>
   clamped_x wrap_slider 65300 = 454 \<and>
   stored_slider_value (default_slider_touch_handler wrap_ui (Some 1) 65300 0 None) 1
     = Inr (Some 100)"
  by (simp add: wrap_ui_def wrap_slider_def slider_defs fixture_defs link_ok_def
        spec_min_x_def spec_max_x_def spec_clamped_x_def spec_slider_value_def
        stored_slider_value_def default_slider_touch_handler_def lcd_ui_redraw_widget_def
        draw_widget_def Let_def word_less_nat_alt word_le_nat_alt)

lemma relative_x_out_of_order:
  assumes "max_x w < min_x w"
  shows "relative_x w x = (if x < min_x w then 0 else range_x w)"
  using assms by (auto simp: relative_x_def clamped_x_def range_x_def)

lemma relative_x_le_range: "relative_x w x \<le> range_x w"
proof (cases "min_x w \<le> max_x w")
  case True
  from clamped_x_in_range[OF True, of x]
  have "unat (clamped_x w x) \<le> unat (max_x w)" by (simp add: word_le_nat_alt)
  then show ?thesis
    by (simp add: word_le_nat_alt unat_relative_x[OF True] unat_range_x[OF True] diff_le_mono)
next
  case False
  then have "max_x w < min_x w" by simp
  from relative_x_out_of_order[OF this] show ?thesis by simp
qed

lemma relative_x_mono:
  assumes "x1 \<le> x2"
  shows "relative_x w x1 \<le> relative_x w x2"
proof (cases "min_x w \<le> max_x w")
  case True
  from clamped_x_mono[OF True assms]
  have "unat (clamped_x w x1) \<le> unat (clamped_x w x2)" by (simp add: word_le_nat_alt)
  then show ?thesis
    by (simp add: word_le_nat_alt unat_relative_x[OF True] diff_le_mono)
next
  case False
  then have "max_x w < min_x w" by simp
  from relative_x_out_of_order[OF this] assms show ?thesis by auto
qed

text \<open>
  Claim C5, as amended. For every slider with width > height the value that the default
  handler stores is monotonic non-decreasing in the touch x, never exceeds 100, equals 0
  for every touch x below \<open>min_x\<close> and equals 100 for every touch x at or above both
  \<open>min_x\<close> and \<open>max_x\<close>, the bounds being the 16-bit values of the handler. When
  these bounds are in order (\<open>min_x \<le> max_x\<close>) it also equals 0 at \<open>min_x\<close> and
  equals 100 for every touch x at or above \<open>max_x\<close>.
\<close>

theorem slider_value_monotone:
  assumes "widget_mem ctx p = Some w" and "height w < width w"
    and "link_ok ctx ud" and "x1 \<le> x2"
  shows "\<exists>c1 c2 w1 w2.
     default_slider_touch_handler ctx (Some p) x1 y1 ud = Inr c1 \<and>
     default_slider_touch_handler ctx (Some p) x2 y2 ud = Inr c2 \<and>
     widget_mem c1 p = Some w1 \<and> widget_mem c2 p = Some w2 \<and>
     slider_value w1 \<le> slider_value w2 \<and> slider_value w2 \<le> 100 \<and>
     (x1 < min_x w \<longrightarrow> slider_value w1 = 0) \<and>
     (min_x w \<le> x2 \<and> max_x w \<le> x2 \<longrightarrow> slider_value w2 = 100) \<and>
     (min_x w \<le> max_x w \<longrightarrow>
        (x1 \<le> min_x w \<longrightarrow> slider_value w1 = 0) \<and>
        (max_x w \<le> x2 \<longrightarrow> slider_value w2 = 100))"
proof -
  have nz: "range_x w \<noteq> 0" using assms(2) by (rule range_x_positive)
  from default_slider_touch_handler_stores[OF assms(1) nz assms(3), of x1 y1] obtain c1 w1 where
    r1: "default_slider_touch_handler ctx (Some p) x1 y1 ud = Inr c1"
    and m1: "widget_mem c1 p = Some w1"
    and v1: "slider_value w1 = (ucast (relative_x w x1) * 100) div ucast (range_x w)"
    by blast
  from default_slider_touch_handler_stores[OF assms(1) nz assms(3), of x2 y2] obtain c2 w2 where
    r2: "default_slider_touch_handler ctx (Some p) x2 y2 ud = Inr c2"
    and m2: "widget_mem c2 p = Some w2"
    and v2: "slider_value w2 = (ucast (relative_x w x2) * 100) div ucast (range_x w)"
    by blast
  let ?R = "unat (range_x w)"
  have pos: "0 < ?R" using nz by (simp add: unat_gt_0)
  have u1: "unat (slider_value w1) = unat (relative_x w x1) * 100 div ?R"
    by (simp add: v1 unat_value)
  have u2: "unat (slider_value w2) = unat (relative_x w x2) * 100 div ?R"
    by (simp add: v2 unat_value)
  have full: "?R * 100 div ?R = 100" using pos by simp
  have "unat (relative_x w x1) \<le> unat (relative_x w x2)"
    using relative_x_mono[OF assms(4), of w] by (simp add: word_le_nat_alt)
  then have "unat (slider_value w1) \<le> unat (slider_value w2)"
    unfolding u1 u2 by (intro div_le_mono mult_le_mono1)
  then have mono: "slider_value w1 \<le> slider_value w2" by (simp add: word_le_nat_alt)
  have "unat (relative_x w x2) \<le> ?R"
    using relative_x_le_range[of w x2] by (simp add: word_le_nat_alt)
  then have "unat (relative_x w x2) * 100 div ?R \<le> ?R * 100 div ?R"
    by (intro div_le_mono mult_le_mono1)
  then have "unat (slider_value w2) \<le> 100" using full by (simp add: u2)
  then have top: "slider_value w2 \<le> 100" by (simp add: word_le_nat_alt)
  have zero: "\<And>x. clamped_x w x = min_x w \<Longrightarrow> relative_x w x = 0"
    by (simp add: relative_x_def)
  have lo: "x1 < min_x w \<longrightarrow> slider_value w1 = 0"
  proof
    assume "x1 < min_x w"
    then have "clamped_x w x1 = min_x w" by (simp add: clamped_x_def)
    then have "unat (slider_value w1) = 0" by (simp add: u1 zero)
    then show "slider_value w1 = 0" by (simp add: unat_eq_0)
  qed
  have hi: "min_x w \<le> x2 \<and> max_x w \<le> x2 \<longrightarrow> slider_value w2 = 100"
  proof
    assume "min_x w \<le> x2 \<and> max_x w \<le> x2"
    then have "clamped_x w x2 = max_x w" by (auto simp: clamped_x_def)
    then have "relative_x w x2 = range_x w" by (simp add: relative_x_def range_x_def)
    then have "unat (slider_value w2) = 100" using full by (simp add: u2)
    then show "slider_value w2 = 100" by unat_arith
  qed
  have ord: "min_x w \<le> max_x w \<longrightarrow>
        (x1 \<le> min_x w \<longrightarrow> slider_value w1 = 0) \<and>
        (max_x w \<le> x2 \<longrightarrow> slider_value w2 = 100)"
  proof (intro impI conjI)
    assume le: "min_x w \<le> max_x w" and "x1 \<le> min_x w"
    then have "clamped_x w x1 = min_x w" by (auto simp: clamped_x_def)
    then have "unat (slider_value w1) = 0" by (simp add: u1 zero)
    then show "slider_value w1 = 0" by (simp add: unat_eq_0)
  next
    assume le: "min_x w \<le> max_x w" and "max_x w \<le> x2"
    then have "min_x w \<le> x2 \<and> max_x w \<le> x2" by simp
    with hi show "slider_value w2 = 100" by simp
  qed
  from r1 r2 m1 m2 mono top lo hi ord show ?thesis by blast
qed

theorem slider_value_monotone_witness:
  "widget_mem demo_ui 3 = Some slider_s \<and> height slider_s < width slider_s \<and>
   min_x slider_s \<le> max_x slider_s \<and> link_ok demo_ui (Some 4) \<and>
   min_x slider_s = 10 \<and> max_x slider_s = 90 \<and>
   (\<exists>c1 c2 w1 w2.
     default_slider_touch_handler demo_ui (Some 3) 10 205 (Some 4) = Inr c1 \<and>
     default_slider_touch_handler demo_ui (Some 3) 300 0 (Some 4) = Inr c2 \<and>
     widget_mem c1 3 = Some w1 \<and> widget_mem c2 3 = Some w2 \<and>
     slider_value w1 = 0 \<and> slider_value w2 = 100) \<and>
   (\<exists>c1 c2 w1 w2.
     default_slider_touch_handler wrap_ui (Some 1) 65009 0 None = Inr c1 \<and>
     default_slider_touch_handler wrap_ui (Some 1) 65010 0 None = Inr c2 \<and>
     widget_mem c1 1 = Some w1 \<and> widget_mem c2 1 = Some w2 \<and>
     slider_value w1 = 0 \<and> slider_value w2 = 100)"
proof -
  have a: "widget_mem demo_ui 3 = Some slider_s" by (simp add: demo_ui_def demo_mem_def)
  have b: "height slider_s < width slider_s" by (simp add: slider_s_def word_less_nat_alt)
  have c: "min_x slider_s \<le> max_x slider_s" using slider_scenario by (simp add: word_le_nat_alt)
  have d: "link_ok demo_ui (Some 4)" by (simp add: link_ok_def demo_ui_def demo_mem_def)
  have e: "(10::u16) \<le> 300" by (simp add: word_le_nat_alt)
  have f: "(10::u16) \<le> min_x slider_s" "max_x slider_s \<le> (300::u16)"
    using slider_scenario by (simp_all add: word_le_nat_alt)
  from slider_value_monotone[OF a b d e, of 205 0] c f
  have g: "\<exists>c1 c2 w1 w2.
     default_slider_touch_handler demo_ui (Some 3) 10 205 (Some 4) = Inr c1 \<and>
     default_slider_touch_handler demo_ui (Some 3) 300 0 (Some 4) = Inr c2 \<and>
     widget_mem c1 3 = Some w1 \<and> widget_mem c2 3 = Some w2 \<and>
     slider_value w1 = 0 \<and> slider_value w2 = 100"
    by blast
  have wa: "widget_mem wrap_ui 1 = Some wrap_slider" "height wrap_slider < width wrap_slider"
    "link_ok wrap_ui None" using wrap_slider_values by simp_all
  have we: "(65009::u16) \<le> 65010" by (simp add: word_le_nat_alt)
  have wf: "(65009::u16) < min_x wrap_slider" "min_x wrap_slider \<le> (65010::u16)"
    "max_x wrap_slider \<le> (65010::u16)"
    using wrap_slider_values by (simp_all add: word_le_nat_alt word_less_nat_alt)
  from slider_value_monotone[OF wa(1) wa(2) wa(3) we, of 0 0] wf
  have h: "\<exists>c1 c2 w1 w2.
     default_slider_touch_handler wrap_ui (Some 1) 65009 0 None = Inr c1 \<and>
     default_slider_touch_handler wrap_ui (Some 1) 65010 0 None = Inr c2 \<and>
     widget_mem c1 1 = Some w1 \<and> widget_mem c2 1 = Some w2 \<and>
     slider_value w1 = 0 \<and> slider_value w2 = 100"
    by blast
  from a b c d g h slider_scenario show ?thesis by simp
qed

text \<open>
  The claim C5 as stated, for every slider with width > height, fails where the right
  usable bound wraps around 16 bits: the slider at x = 65000 of width 1000 and height 20
  has \<open>min_x\<close> = 65010 and \<open>max_x\<close> = 65990 - 65536 = 454; a touch at 65010, the
  lower bound, stores 100, and a touch at 500, above the computed upper bound, stores 0.
\<close>

theorem slider_value_wrap_counterexample:
  "widget_mem wrap_ui 1 = Some wrap_slider \<and> height wrap_slider < width wrap_slider \<and>
   min_x wrap_slider = 65010 \<and> max_x wrap_slider = 454 \<and> range_x wrap_slider = 980 \<and>
   (65010::u16) \<le> min_x wrap_slider \<and>
   stored_slider_value (default_slider_touch_handler wrap_ui (Some 1) 65010 0 None) 1
     = Inr (Some 100) \<and>
   max_x wrap_slider \<le> (500::u16) \<and>
   stored_slider_value (default_slider_touch_handler wrap_ui (Some 1) 500 0 None) 1
     = Inr (Some 0)"
  by (simp add: wrap_ui_def wrap_slider_def slider_defs fixture_defs stored_slider_value_def
        default_slider_touch_handler_def lcd_ui_redraw_widget_def draw_widget_def Let_def word_less_nat_alt
        word_le_nat_alt)

end
